theory Spec2Isabelle
  imports Main
begin

section \<open>The garbage collector service of st2reactor\<close>

text \<open>
  A shallow embedding of \<^verbatim>\<open>st2reactor/garbage_collector/base.py\<close>
  (class \<^verbatim>\<open>GarbageCollectorService\<close>) and of the result aggregator that
  \<^verbatim>\<open>st2actions/tests/test_fabricrunner.py\<close> exercises.

  The service object (\<^verbatim>\<open>self\<close>) is a record; everything outside it (the log, the
  purge collaborators, the clock, the other green threads) is the rest of the state.
  A method that can raise returns a sum: \<open>Inl (e, s)\<close> is the exception \<open>e\<close> leaving
  the method in state \<open>s\<close> (the effects performed before the raise stay performed),
  \<open>Inr s\<close> is a normal return.
\<close>

subsection \<open>Python values\<close>

text \<open>
  The exceptions the module can meet. All of them are instances of Python's
  \<^verbatim>\<open>Exception\<close>, the class named by the handlers \<^verbatim>\<open>except Exception as e\<close>;
  \<open>Exception msg\<close> stands for any failure of a purge collaborator, with
  \<^verbatim>\<open>str(e) = msg\<close>.
\<close>

datatype error =
    ValueError string
  | TypeError
  | OverflowError
  | AssertionError
  | Exception string

text \<open>
  A \<^verbatim>\<open>datetime\<close> is the number of microseconds since \<^verbatim>\<open>datetime.min\<close>
  (0001-01-01 00:00:00); \<^verbatim>\<open>datetime.max\<close> is 9999-12-31 23:59:59.999999, the
  last microsecond of day 3652059. A \<^verbatim>\<open>timedelta\<close> is a number of microseconds.
\<close>

type_synonym datetime = int
type_synonym timedelta = int

definition day :: int where
  "day = 86400000000"

definition datetime_max :: datetime where
  "datetime_max = 3652059 * day - 1"

text \<open>
  \<^verbatim>\<open>datetime.timedelta(days=d)\<close>: a configuration value that is unset is
  \<^verbatim>\<open>None\<close> and raises TypeError; more than 999999999 days raise OverflowError.
\<close>

fun timedelta_days :: "int option \<Rightarrow> error + timedelta" where
  "timedelta_days None = Inl TypeError"
| "timedelta_days (Some d) =
     (if \<bar>d\<bar> > 999999999 then Inl OverflowError else Inr (d * day))"

text \<open>\<^verbatim>\<open>dt - td\<close>: OverflowError when the result is not a representable date.\<close>

definition datetime_sub :: "datetime \<Rightarrow> timedelta \<Rightarrow> error + datetime" where
  "datetime_sub dt td =
     (if 0 \<le> dt - td \<and> dt - td \<le> datetime_max then Inr (dt - td) else Inl OverflowError)"

text \<open>
  Truth value of an optional integer (\<^verbatim>\<open>if x and ...\<close>): \<^verbatim>\<open>None\<close> and 0 are false.
\<close>

fun truthy :: "int option \<Rightarrow> bool" where
  "truthy None = False"
| "truthy (Some n) = (n \<noteq> 0)"

text \<open>
  \<^verbatim>\<open>x < m\<close> and \<^verbatim>\<open>x >= m\<close> for an optional integer \<open>x\<close>. The module is
  Python 2 code (its tests run under \<^verbatim>\<open>unittest2\<close>), where \<^verbatim>\<open>None\<close> orders
  below every number and the comparison does not raise.
\<close>

fun py_lt :: "int option \<Rightarrow> int \<Rightarrow> bool" where
  "py_lt None m = True"
| "py_lt (Some n) m = (n < m)"

fun py_ge :: "int option \<Rightarrow> int \<Rightarrow> bool" where
  "py_ge None m = False"
| "py_ge (Some n) m = (n \<ge> m)"

subsection \<open>Constants and configuration\<close>

text \<open>
  Modelled from the spec: \<^verbatim>\<open>st2common.constants.garbage_collection\<close> is not among
  the sources. Its two floors, \<^verbatim>\<open>MINIMUM_TTL_DAYS\<close> (executions and trigger
  instances) and \<^verbatim>\<open>MINIMUM_TTL_DAYS_EXECUTION_OUTPUT\<close> (execution output), are
  parameters of every definition that reads them.
\<close>

record constants =
  MINIMUM_TTL_DAYS :: int
  MINIMUM_TTL_DAYS_EXECUTION_OUTPUT :: int

text \<open>The group \<^verbatim>\<open>cfg.CONF.garbagecollector\<close>, read once by the constructor.\<close>

record garbagecollector =
  cfg_action_executions_ttl :: "int option"
  cfg_action_executions_output_ttl :: "int option"
  cfg_trigger_instances_ttl :: "int option"
  cfg_purge_inquiries :: bool

text \<open>
  The attributes of \<^verbatim>\<open>self\<close>. The attribute \<^verbatim>\<open>_running\<close> is first assigned by
  \<^verbatim>\<open>run\<close>; the record holds \<open>False\<close> for it until then.
\<close>

record service =
  collection_interval :: int
  action_executions_ttl :: "int option"
  action_executions_output_ttl :: "int option"
  trigger_instances_ttl :: "int option"
  purge_inquiries :: bool
  sleep_delay :: int
  running :: bool

subsection \<open>Effects\<close>

text \<open>The four purge collaborators, with the timestamp they are called with.\<close>

datatype call =
    Purge_executions datetime
  | Purge_execution_output_objects datetime
  | Purge_trigger_instances datetime
  | Purge_inquiries

datatype level = INFO | DEBUG | EXCEPTION

text \<open>
  What the service does to the outside, in order: a log line (the format string, without
  its arguments), a call of a collaborator, a sleep of the green thread.
\<close>

datatype event =
    Log level string
  | Call call
  | Sleep int

text \<open>
  The state: the service object and its environment.
  \<^item> \<open>events\<close>: the effects so far, oldest first.
  \<^item> \<open>clock\<close>, \<open>reads\<close>: \<open>clock k\<close> is what the \<open>k\<close>-th call of
    \<^verbatim>\<open>get_datetime_utc_now\<close> returns; \<open>reads\<close> counts the calls made.
  \<^item> \<open>collaborator\<close>: the outcome of a collaborator call, given the call and the effects
    before it: \<open>None\<close> when it returns, \<open>Some e\<close> when it raises \<open>e\<close>.
  \<^item> \<open>shutdown_at\<close>: whether another green thread calls \<^verbatim>\<open>shutdown()\<close> while this
    one is suspended in the effect that comes after \<open>k\<close> recorded effects.
\<close>

record state =
  self :: service
  events :: "event list"
  clock :: "nat \<Rightarrow> datetime"
  reads :: nat
  collaborator :: "call \<Rightarrow> event list \<Rightarrow> error option"
  shutdown_at :: "nat \<Rightarrow> bool"

type_synonym result = "(error \<times> state) + state"

definition shutdown :: "service \<Rightarrow> service" where
  "shutdown svc = svc\<lparr>running := False\<rparr>"

definition LOG :: "level \<Rightarrow> string \<Rightarrow> state \<Rightarrow> state" where
  "LOG lvl msg s = s\<lparr>events := events s @ [Log lvl msg]\<rparr>"

text \<open>
  A suspension point of the green thread: the other green threads run, and one of them
  may call \<^verbatim>\<open>shutdown()\<close> on the service.
\<close>

definition suspend :: "event \<Rightarrow> state \<Rightarrow> state" where
  "suspend e s =
     (let s' = s\<lparr>events := events s @ [e]\<rparr>
      in if shutdown_at s (length (events s)) then s'\<lparr>self := shutdown (self s')\<rparr> else s')"

definition eventlet_sleep :: "int \<Rightarrow> state \<Rightarrow> state" where
  "eventlet_sleep seconds s = suspend (Sleep seconds) s"

definition get_datetime_utc_now :: "state \<Rightarrow> datetime \<times> state" where
  "get_datetime_utc_now s = (clock s (reads s), s\<lparr>reads := Suc (reads s)\<rparr>)"

text \<open>A collaborator call: its outcome, and the state after it.\<close>

definition invoke :: "call \<Rightarrow> state \<Rightarrow> error option \<times> state" where
  "invoke c s = (collaborator s c (events s), suspend (Call c) s)"

subsection \<open>Construction\<close>

definition validate_ttl_values :: "constants \<Rightarrow> service \<Rightarrow> error + unit" where
  "validate_ttl_values K svc =
     (if truthy (action_executions_ttl svc) \<and>
         py_lt (action_executions_ttl svc) (MINIMUM_TTL_DAYS K)
      then Inl (ValueError ''Minimum possible TTL for action_executions_ttl in days is %s'')
      else if truthy (trigger_instances_ttl svc) \<and>
         py_lt (trigger_instances_ttl svc) (MINIMUM_TTL_DAYS K)
      then Inl (ValueError ''Minimum possible TTL for trigger_instances_ttl in days is %s'')
      else if truthy (action_executions_output_ttl svc) \<and>
         py_lt (action_executions_output_ttl svc) (MINIMUM_TTL_DAYS_EXECUTION_OUTPUT K)
      then Inl (ValueError
        ''Minimum possible TTL for action_executions_output_ttl in days is %s'')
      else Inr ())"

text \<open>
  \<^verbatim>\<open>__init__(collection_interval, sleep_delay)\<close>: the constructed object, or the
  exception of the validation.
\<close>

definition init :: "constants \<Rightarrow> garbagecollector \<Rightarrow> int \<Rightarrow> int \<Rightarrow> error + service" where
  "init K conf interval delay =
     (let svc = \<lparr>collection_interval = interval,
                 action_executions_ttl = cfg_action_executions_ttl conf,
                 action_executions_output_ttl = cfg_action_executions_output_ttl conf,
                 trigger_instances_ttl = cfg_trigger_instances_ttl conf,
                 purge_inquiries = cfg_purge_inquiries conf,
                 sleep_delay = delay,
                 running = False\<rparr>
      in case validate_ttl_values K svc of
           Inl e \<Rightarrow> Inl e
         | Inr _ \<Rightarrow> Inr svc)"

subsection \<open>The purge methods\<close>

text \<open>
  Each method reads the clock once, computes the cutoff and the floor, and raises before
  it reaches the collaborator when the arithmetic overflows, the cutoff is later than the
  floor, or the assertion fails. Only the collaborator call stands inside \<^verbatim>\<open>try\<close>.
\<close>

definition purge_action_executions :: "constants \<Rightarrow> state \<Rightarrow> result" where
  "purge_action_executions K s0 =
     (let s1 = LOG INFO
            ''Performing garbage collection for action executions and related objects'' s0;
          (utc_now, s2) = get_datetime_utc_now s1
      in case timedelta_days (action_executions_ttl (self s2)) of
           Inl e \<Rightarrow> Inl (e, s2)
         | Inr ttl \<Rightarrow>
      (case datetime_sub utc_now ttl of
           Inl e \<Rightarrow> Inl (e, s2)
         | Inr timestamp \<Rightarrow>
      (case timedelta_days (Some (MINIMUM_TTL_DAYS K)) of
           Inl e \<Rightarrow> Inl (e, s2)
         | Inr minimum \<Rightarrow>
      (case datetime_sub utc_now minimum of
           Inl e \<Rightarrow> Inl (e, s2)
         | Inr floor_ts \<Rightarrow>
       if timestamp > floor_ts
       then Inl (ValueError
              ''Calculated timestamp would violate the minimum TTL constraint'', s2)
       else
         let s3 = LOG INFO ''Deleting action executions older than: %s'' s2
         in if \<not> timestamp < utc_now then Inl (AssertionError, s3)
            else
              (case invoke (Purge_executions timestamp) s3 of
                 (None, s4) \<Rightarrow> Inr s4
               | (Some e, s4) \<Rightarrow>
                   Inr (LOG EXCEPTION ''Failed to delete executions: %s'' s4))))))"

definition purge_action_executions_output :: "constants \<Rightarrow> state \<Rightarrow> result" where
  "purge_action_executions_output K s0 =
     (let s1 = LOG INFO
            ''Performing garbage collection for action executions output objects'' s0;
          (utc_now, s2) = get_datetime_utc_now s1
      in case timedelta_days (action_executions_output_ttl (self s2)) of
           Inl e \<Rightarrow> Inl (e, s2)
         | Inr ttl \<Rightarrow>
      (case datetime_sub utc_now ttl of
           Inl e \<Rightarrow> Inl (e, s2)
         | Inr timestamp \<Rightarrow>
      (case timedelta_days (Some (MINIMUM_TTL_DAYS_EXECUTION_OUTPUT K)) of
           Inl e \<Rightarrow> Inl (e, s2)
         | Inr minimum \<Rightarrow>
      (case datetime_sub utc_now minimum of
           Inl e \<Rightarrow> Inl (e, s2)
         | Inr floor_ts \<Rightarrow>
       if timestamp > floor_ts
       then Inl (ValueError
              ''Calculated timestamp would violate the minimum TTL constraint'', s2)
       else
         let s3 = LOG INFO ''Deleting action executions output objects older than: %s'' s2
         in if \<not> timestamp < utc_now then Inl (AssertionError, s3)
            else
              (case invoke (Purge_execution_output_objects timestamp) s3 of
                 (None, s4) \<Rightarrow> Inr s4
               | (Some e, s4) \<Rightarrow>
                   Inr (LOG EXCEPTION ''Failed to delete execution output objects: %s'' s4))))))"

definition purge_trigger_instances :: "constants \<Rightarrow> state \<Rightarrow> result" where
  "purge_trigger_instances K s0 =
     (let s1 = LOG INFO ''Performing garbage collection for trigger instances'' s0;
          (utc_now, s2) = get_datetime_utc_now s1
      in case timedelta_days (trigger_instances_ttl (self s2)) of
           Inl e \<Rightarrow> Inl (e, s2)
         | Inr ttl \<Rightarrow>
      (case datetime_sub utc_now ttl of
           Inl e \<Rightarrow> Inl (e, s2)
         | Inr timestamp \<Rightarrow>
      (case timedelta_days (Some (MINIMUM_TTL_DAYS K)) of
           Inl e \<Rightarrow> Inl (e, s2)
         | Inr minimum \<Rightarrow>
      (case datetime_sub utc_now minimum of
           Inl e \<Rightarrow> Inl (e, s2)
         | Inr floor_ts \<Rightarrow>
       if timestamp > floor_ts
       then Inl (ValueError
              ''Calculated timestamp would violate the minimum TTL constraint'', s2)
       else
         let s3 = LOG INFO ''Deleting trigger instances older than: %s'' s2
         in if \<not> timestamp < utc_now then Inl (AssertionError, s3)
            else
              (case invoke (Purge_trigger_instances timestamp) s3 of
                 (None, s4) \<Rightarrow> Inr s4
               | (Some e, s4) \<Rightarrow>
                   Inr (LOG EXCEPTION ''Failed to trigger instances: %s'' s4))))))"

definition timeout_inquiries :: "state \<Rightarrow> result" where
  "timeout_inquiries s0 =
     (let s1 = LOG INFO ''Performing garbage collection for Inquiries'' s0
      in case invoke Purge_inquiries s1 of
           (None, s2) \<Rightarrow> Inr s2
         | (Some e, s2) \<Rightarrow> Inr (LOG EXCEPTION ''Failed to purge inquiries: %s'' s2))"

subsection \<open>The collection pass, the signal handler and the main loop\<close>

text \<open>
  The pass has no handler of its own: an exception of a purge method leaves the pass at
  once. After a method that returned, the pass sleeps \<^verbatim>\<open>self._sleep_delay\<close>.
\<close>

definition perform_garbage_collection :: "constants \<Rightarrow> state \<Rightarrow> result" where
  "perform_garbage_collection K s0 =
     (let s1 = LOG INFO ''Performing garbage collection...'' s0
      in case
           (if py_ge (action_executions_ttl (self s1)) (MINIMUM_TTL_DAYS K)
            then (case purge_action_executions K s1 of
                    Inl x \<Rightarrow> Inl x
                  | Inr s \<Rightarrow> Inr (eventlet_sleep (sleep_delay (self s)) s))
            else Inr (LOG DEBUG
              ''Skipping garbage collection for action executions since it's not configured''
              s1))
         of Inl x \<Rightarrow> Inl x
          | Inr s2 \<Rightarrow>
      (case
           (if py_ge (action_executions_output_ttl (self s2))
                 (MINIMUM_TTL_DAYS_EXECUTION_OUTPUT K)
            then (case purge_action_executions_output K s2 of
                    Inl x \<Rightarrow> Inl x
                  | Inr s \<Rightarrow> Inr (eventlet_sleep (sleep_delay (self s)) s))
            else Inr (LOG DEBUG
              ''Skipping garbage collection for action executions output since it's not configured''
              s2))
         of Inl x \<Rightarrow> Inl x
          | Inr s3 \<Rightarrow>
      (case
           (if py_ge (trigger_instances_ttl (self s3)) (MINIMUM_TTL_DAYS K)
            then (case purge_trigger_instances K s3 of
                    Inl x \<Rightarrow> Inl x
                  | Inr s \<Rightarrow> Inr (eventlet_sleep (sleep_delay (self s)) s))
            else Inr (LOG DEBUG
              ''Skipping garbage collection for trigger instances since it's not configured''
              s3))
         of Inl x \<Rightarrow> Inl x
          | Inr s4 \<Rightarrow>
           (if purge_inquiries (self s4)
            then (case timeout_inquiries s4 of
                    Inl x \<Rightarrow> Inl x
                  | Inr s \<Rightarrow> Inr (eventlet_sleep (sleep_delay (self s)) s))
            else Inr (LOG DEBUG
              ''Skipping garbage collection for Inquiries since it's not configured''
              s4)))))"

text \<open>\<^verbatim>\<open>handle_sigusr2(signal_number, stack_frame)\<close>; the frame is not used.\<close>

definition handle_sigusr2 :: "constants \<Rightarrow> int \<Rightarrow> state \<Rightarrow> result" where
  "handle_sigusr2 K signal_number s =
     perform_garbage_collection K (LOG INFO ''Forcing garbage collection...'' s)"

text \<open>
  \<^verbatim>\<open>_main_loop\<close>: the loop may run forever, which is the value \<open>None\<close>.
\<close>

partial_function (option) main_loop :: "constants \<Rightarrow> state \<Rightarrow> result option" where
  "main_loop K s =
     (if running (self s)
      then (case perform_garbage_collection K s of
              Inl x \<Rightarrow> Some (Inl x)
            | Inr s1 \<Rightarrow>
                main_loop K
                  (eventlet_sleep (collection_interval (self s1))
                     (LOG INFO ''Sleeping for %s seconds before next garbage collection...''
                        s1)))
      else Some (Inr s))"

subsection \<open>Observing a run\<close>

text \<open>The state in which a method was left, by a return or by an exception.\<close>

definition final :: "result \<Rightarrow> state" where
  "final r = (case r of Inl (e, s) \<Rightarrow> s | Inr s \<Rightarrow> s)"

text \<open>The effects recorded between an earlier state and a later one.\<close>

definition added :: "state \<Rightarrow> state \<Rightarrow> event list" where
  "added s s' = drop (length (events s)) (events s')"

datatype category = Executions | Execution_output | Trigger_instances | Inquiries

fun category_of :: "call \<Rightarrow> category" where
  "category_of (Purge_executions ts) = Executions"
| "category_of (Purge_execution_output_objects ts) = Execution_output"
| "category_of (Purge_trigger_instances ts) = Trigger_instances"
| "category_of Purge_inquiries = Inquiries"

text \<open>The purges and sleeps among some effects, in order; log lines are left out.\<close>

datatype step = is_Purged: Purged category | is_Slept: Slept int

fun steps :: "event list \<Rightarrow> step list" where
  "steps [] = []"
| "steps (Log lvl msg # es) = steps es"
| "steps (Call c # es) = Purged (category_of c) # steps es"
| "steps (Sleep d # es) = Slept d # steps es"

text \<open>
  The later state continues the earlier one: the record of effects is extended, the
  environment is the same, and of the service object only \<^verbatim>\<open>_running\<close> may differ.
\<close>

definition continues :: "state \<Rightarrow> state \<Rightarrow> bool" where
  "continues s s' \<longleftrightarrow>
     (\<exists>es. events s' = events s @ es) \<and>
     clock s' = clock s \<and> collaborator s' = collaborator s \<and>
     shutdown_at s' = shutdown_at s \<and> reads s \<le> reads s' \<and>
     (self s')\<lparr>running := True\<rparr> = (self s)\<lparr>running := True\<rparr>"

text \<open>The exception a method ended with, if any.\<close>

definition error_of :: "result \<Rightarrow> error option" where
  "error_of r = (case r of Inl (e, s) \<Rightarrow> Some e | Inr s \<Rightarrow> None)"

text \<open>The collaborator calls and sleeps among some effects, in order.\<close>

fun effects :: "event list \<Rightarrow> event list" where
  "effects [] = []"
| "effects (Log lvl msg # es) = effects es"
| "effects (e # es) = e # effects es"

subsection \<open>The shape shared by the purge methods and by the pass\<close>

text \<open>
  The three purge methods differ in the TTL they read, the floor, the collaborator and
  the log lines only. Their common arithmetic, as a function of the TTL, the floor and
  the clock reading: the cutoff passed to the collaborator, or the exception raised.
\<close>

definition cutoff :: "int option \<Rightarrow> int \<Rightarrow> datetime \<Rightarrow> error + datetime" where
  "cutoff ttl_days minimum_days utc_now =
     (case timedelta_days ttl_days of
        Inl e \<Rightarrow> Inl e
      | Inr ttl \<Rightarrow>
     (case datetime_sub utc_now ttl of
        Inl e \<Rightarrow> Inl e
      | Inr timestamp \<Rightarrow>
     (case timedelta_days (Some minimum_days) of
        Inl e \<Rightarrow> Inl e
      | Inr minimum \<Rightarrow>
     (case datetime_sub utc_now minimum of
        Inl e \<Rightarrow> Inl e
      | Inr floor_ts \<Rightarrow>
        if timestamp > floor_ts
        then Inl (ValueError ''Calculated timestamp would violate the minimum TTL constraint'')
        else if \<not> timestamp < utc_now then Inl AssertionError
        else Inr timestamp))))"

text \<open>Their common body, with the differences as parameters.\<close>

definition purge_by ::
  "int option \<Rightarrow> int \<Rightarrow> (datetime \<Rightarrow> call) \<Rightarrow> string \<Rightarrow> string \<Rightarrow> string \<Rightarrow> state \<Rightarrow> result"
where
  "purge_by ttl_days minimum_days collab msg1 msg2 msg3 s0 =
     (let s1 = LOG INFO msg1 s0;
          (utc_now, s2) = get_datetime_utc_now s1
      in case timedelta_days ttl_days of
           Inl e \<Rightarrow> Inl (e, s2)
         | Inr ttl \<Rightarrow>
      (case datetime_sub utc_now ttl of
           Inl e \<Rightarrow> Inl (e, s2)
         | Inr timestamp \<Rightarrow>
      (case timedelta_days (Some minimum_days) of
           Inl e \<Rightarrow> Inl (e, s2)
         | Inr minimum \<Rightarrow>
      (case datetime_sub utc_now minimum of
           Inl e \<Rightarrow> Inl (e, s2)
         | Inr floor_ts \<Rightarrow>
       if timestamp > floor_ts
       then Inl (ValueError
              ''Calculated timestamp would violate the minimum TTL constraint'', s2)
       else
         let s3 = LOG INFO msg2 s2
         in if \<not> timestamp < utc_now then Inl (AssertionError, s3)
            else
              (case invoke (collab timestamp) s3 of
                 (None, s4) \<Rightarrow> Inr s4
               | (Some e, s4) \<Rightarrow> Inr (LOG EXCEPTION msg3 s4))))))"

text \<open>Sequencing as the pass does it: an exception ends the sequence.\<close>

definition and_then :: "result \<Rightarrow> (state \<Rightarrow> result) \<Rightarrow> result" where
  "and_then r f = (case r of Inl x \<Rightarrow> Inl x | Inr s \<Rightarrow> f s)"

text \<open>One category of the pass: the method and the sleep after it, or the debug line.\<close>

definition guarded :: "bool \<Rightarrow> (state \<Rightarrow> result) \<Rightarrow> string \<Rightarrow> state \<Rightarrow> result" where
  "guarded enabled method msg s =
     (if enabled
      then and_then (method s) (\<lambda>s'. Inr (eventlet_sleep (sleep_delay (self s')) s'))
      else Inr (LOG DEBUG msg s))"

text \<open>
  What a pass does to the outside, told without the state: the categories in order, each
  with its guard. A category with a TTL reads the clock once when its guard holds; a
  cutoff that cannot be computed ends the pass.
\<close>

datatype job =
    Timed "datetime \<Rightarrow> call" "int option" int
  | Flagged call bool

fun pass_model :: "int \<Rightarrow> (nat \<Rightarrow> datetime) \<Rightarrow> nat \<Rightarrow> job list \<Rightarrow> event list \<times> error option"
where
  "pass_model d clk k [] = ([], None)"
| "pass_model d clk k (Timed collab ttl_days minimum_days # js) =
     (if py_ge ttl_days minimum_days
      then (case cutoff ttl_days minimum_days (clk k) of
              Inl e \<Rightarrow> ([], Some e)
            | Inr timestamp \<Rightarrow>
                (Call (collab timestamp) # Sleep d # fst (pass_model d clk (Suc k) js),
                 snd (pass_model d clk (Suc k) js)))
      else pass_model d clk k js)"
| "pass_model d clk k (Flagged c enabled # js) =
     (if enabled
      then (Call c # Sleep d # fst (pass_model d clk k js), snd (pass_model d clk k js))
      else pass_model d clk k js)"

definition jobs :: "constants \<Rightarrow> service \<Rightarrow> job list" where
  "jobs K svc =
     [Timed Purge_executions (action_executions_ttl svc) (MINIMUM_TTL_DAYS K),
      Timed Purge_execution_output_objects (action_executions_output_ttl svc)
        (MINIMUM_TTL_DAYS_EXECUTION_OUTPUT K),
      Timed Purge_trigger_instances (trigger_instances_ttl svc) (MINIMUM_TTL_DAYS K),
      Flagged Purge_inquiries (purge_inquiries svc)]"

text \<open>A method run from \<open>s\<close> with result \<open>r\<close> shows the effects and the exception \<open>p\<close>.\<close>

definition exhibits :: "state \<Rightarrow> result \<Rightarrow> event list \<times> error option \<Rightarrow> bool" where
  "exhibits s r p \<longleftrightarrow>
     continues s (final r) \<and> effects (added s (final r)) = fst p \<and> error_of r = snd p"

subsection \<open>The validity of a TTL, in the words of the specification\<close>

text \<open>
  A configured TTL is acceptable when it is unset or zero (the category is disabled) or
  at least the minimum of its category.
\<close>

definition ttl_valid :: "int option \<Rightarrow> int \<Rightarrow> bool" where
  "ttl_valid ttl minimum = (case ttl of None \<Rightarrow> True | Some n \<Rightarrow> n = 0 \<or> minimum \<le> n)"

text \<open>A category with a TTL is disabled when the TTL is unset or zero.\<close>

definition disabled :: "int option \<Rightarrow> bool" where
  "disabled ttl = (case ttl of None \<Rightarrow> True | Some n \<Rightarrow> n = 0)"

subsection \<open>The result aggregator\<close>

datatype status = SUCCEEDED | FAILED

text \<open>
  Modelled from the spec: \<^verbatim>\<open>FabricRunner._get_result_status\<close> is not among the
  sources, only its test is. The result maps each target to whether it succeeded; with
  partial failure allowed the verdict is SUCCEEDED when at least one target succeeded,
  otherwise it is SUCCEEDED when every target succeeded. The mapping is a list of pairs
  with distinct keys, so that the order of the targets can be spoken about.
\<close>

definition get_result_status :: "(string \<times> bool) list \<Rightarrow> bool \<Rightarrow> status" where
  "get_result_status result allow_partial_failure =
     (if allow_partial_failure
      then (if list_ex snd result then SUCCEEDED else FAILED)
      else (if list_all snd result then SUCCEEDED else FAILED))"

subsection \<open>A small installation, for concrete runs\<close>

definition example_constants :: constants where
  "example_constants = \<lparr>MINIMUM_TTL_DAYS = 7, MINIMUM_TTL_DAYS_EXECUTION_OUTPUT = 1\<rparr>"

definition example_conf :: garbagecollector where
  "example_conf = \<lparr>cfg_action_executions_ttl = Some 30,
                    cfg_action_executions_output_ttl = None,
                    cfg_trigger_instances_ttl = Some 0,
                    cfg_purge_inquiries = True\<rparr>"

definition example_service :: service where
  "example_service = \<lparr>collection_interval = 600,
                       action_executions_ttl = Some 30,
                       action_executions_output_ttl = None,
                       trigger_instances_ttl = Some 0,
                       purge_inquiries = True,
                       sleep_delay = 2,
                       running = True\<rparr>"

text \<open>
  The clock starts on day 739000 (in the year 2024) and advances by a second with each
  reading; every collaborator call returns; nobody calls \<^verbatim>\<open>shutdown()\<close>.
\<close>

definition example_state :: state where
  "example_state = \<lparr>self = example_service,
                     events = [],
                     clock = (\<lambda>k. 739000 * day + int k * 1000000),
                     reads = 0,
                     collaborator = (\<lambda>c h. None),
                     shutdown_at = (\<lambda>k. False)\<rparr>"

section \<open>Lemmas\<close>

subsection \<open>States and effects\<close>

lemma LOG_simps [simp]: "self (LOG l m s) = self s" "clock (LOG l m s) = clock s" "reads (LOG l m s) = reads s"
  "collaborator (LOG l m s) = collaborator s" "shutdown_at (LOG l m s) = shutdown_at s"
  "events (LOG l m s) = events s @ [Log l m]"
  by (simp_all add: LOG_def)

lemma suspend_simps [simp]: "clock (suspend e s) = clock s" "reads (suspend e s) = reads s"
  "collaborator (suspend e s) = collaborator s" "shutdown_at (suspend e s) = shutdown_at s"
  "events (suspend e s) = events s @ [e]"
  "(self (suspend e s))\<lparr>running := True\<rparr> = (self s)\<lparr>running := True\<rparr>"
  by (simp_all add: suspend_def Let_def shutdown_def)

lemma purge_action_executions_eq:
  "purge_action_executions K s =
     purge_by (action_executions_ttl (self s)) (MINIMUM_TTL_DAYS K) Purge_executions
       ''Performing garbage collection for action executions and related objects''
       ''Deleting action executions older than: %s''
       ''Failed to delete executions: %s'' s"
  unfolding purge_action_executions_def purge_by_def get_datetime_utc_now_def
  by (simp add: Let_def)

lemma purge_action_executions_output_eq:
  "purge_action_executions_output K s =
     purge_by (action_executions_output_ttl (self s)) (MINIMUM_TTL_DAYS_EXECUTION_OUTPUT K)
       Purge_execution_output_objects
       ''Performing garbage collection for action executions output objects''
       ''Deleting action executions output objects older than: %s''
       ''Failed to delete execution output objects: %s'' s"
  unfolding purge_action_executions_output_def purge_by_def get_datetime_utc_now_def
  by (simp add: Let_def)

lemma purge_trigger_instances_eq:
  "purge_trigger_instances K s =
     purge_by (trigger_instances_ttl (self s)) (MINIMUM_TTL_DAYS K) Purge_trigger_instances
       ''Performing garbage collection for trigger instances''
       ''Deleting trigger instances older than: %s''
       ''Failed to trigger instances: %s'' s"
  unfolding purge_trigger_instances_def purge_by_def get_datetime_utc_now_def
  by (simp add: Let_def)

lemma purge_by_Inl:
  assumes "cutoff ttl m (clock s (reads s)) = Inl e"
  shows "\<exists>s'. purge_by ttl m c m1 m2 m3 s = Inl (e, s') \<and> continues s s' \<and>
           effects (added s s') = [] \<and> reads s' = Suc (reads s)"
  using assms
  unfolding purge_by_def cutoff_def get_datetime_utc_now_def
  by (auto simp: Let_def continues_def added_def split: sum.splits if_splits)

lemma purge_by_Inr:
  assumes "cutoff ttl m (clock s (reads s)) = Inr ts"
  shows "\<exists>s'. purge_by ttl m c m1 m2 m3 s = Inr s' \<and> continues s s' \<and>
           effects (added s s') = [Call (c ts)] \<and> reads s' = Suc (reads s)"
  using assms
  unfolding purge_by_def cutoff_def get_datetime_utc_now_def invoke_def
  by (auto simp: Let_def continues_def added_def split: sum.splits if_splits option.splits)


lemma effects_append: "effects (xs @ ys) = effects xs @ effects ys"
  by (induction xs rule: effects.induct) auto

lemma continues_trans:
  "continues s s' \<Longrightarrow> continues s' s'' \<Longrightarrow> continues s s''"
  unfolding continues_def by auto

lemma added_trans:
  "continues s s' \<Longrightarrow> continues s' s'' \<Longrightarrow> added s s'' = added s s' @ added s' s''"
  unfolding continues_def added_def by auto

lemma continues_events: "continues s s' \<Longrightarrow> events s' = events s @ added s s'"
  by (auto simp: continues_def added_def)

lemma continues_sleep_delay: "continues s s' \<Longrightarrow> sleep_delay (self s') = sleep_delay (self s)"
  unfolding continues_def by (metis service.select_convs(6) service.surjective service.update_convs(7))

lemma continues_LOG: "continues s (LOG l m s)" "added s (LOG l m s) = [Log l m]"
  by (simp_all add: continues_def added_def)

lemma continues_suspend: "continues s (suspend e s)" "added s (suspend e s) = [e]"
  by (simp_all add: continues_def added_def)

lemma timeout_inquiries_Inr:
  "\<exists>s'. timeout_inquiries s = Inr s' \<and> continues s s' \<and>
     effects (added s s') = [Call Purge_inquiries] \<and> reads s' = reads s"
  unfolding timeout_inquiries_def invoke_def
  by (auto simp: Let_def continues_def added_def split: option.splits)

lemma exhibits_Inl:
  "continues s s' \<Longrightarrow> effects (added s s') = es \<Longrightarrow> exhibits s (Inl (e, s')) (es, Some e)"
  by (simp add: exhibits_def final_def error_of_def)

lemma exhibits_step:
  assumes "continues s s'" "effects (added s s') = es" "exhibits s' r (es', eo)"
  shows "exhibits s r (es @ es', eo)"
  using assms unfolding exhibits_def
  by (auto simp: added_trans effects_append intro: continues_trans)

lemma exhibits_Timed:
  assumes M: "M s = purge_by ttl m c m1 m2 m3 s"
    and d: "sleep_delay (self s) = d"
    and rest: "\<And>s'. continues s s' \<Longrightarrow>
                 reads s' = (if py_ge ttl m then Suc (reads s) else reads s) \<Longrightarrow>
                 exhibits s' (f s') (pass_model d (clock s) (reads s') js)"
  shows "exhibits s (and_then (guarded (py_ge ttl m) M msg s) f)
           (pass_model d (clock s) (reads s) (Timed c ttl m # js))"
proof (cases "py_ge ttl m")
  case False
  let ?s' = "LOG DEBUG msg s"
  have "exhibits ?s' (f ?s') (pass_model d (clock s) (reads s) js)"
    using rest [of ?s'] False by (simp add: continues_LOG)
  then have "exhibits s (f ?s') ([] @ fst (pass_model d (clock s) (reads s) js),
      snd (pass_model d (clock s) (reads s) js))"
    by (intro exhibits_step [where s' = ?s']) (simp_all add: continues_LOG)
  with False show ?thesis
    by (simp add: guarded_def and_then_def)
next
  case True
  show ?thesis
  proof (cases "cutoff ttl m (clock s (reads s))")
    case (Inl e)
    from purge_by_Inl [OF Inl, of c m1 m2 m3] obtain s' where
      s': "purge_by ttl m c m1 m2 m3 s = Inl (e, s')" "continues s s'"
          "effects (added s s') = []"
      by blast
    with True Inl M show ?thesis
      by (simp add: guarded_def and_then_def exhibits_Inl)
  next
    case (Inr ts)
    from purge_by_Inr [OF Inr, of c m1 m2 m3] obtain s' where
      s': "purge_by ttl m c m1 m2 m3 s = Inr s'" "continues s s'"
          "effects (added s s') = [Call (c ts)]" "reads s' = Suc (reads s)"
      by blast
    let ?s'' = "eventlet_sleep (sleep_delay (self s')) s'"
    have dd: "sleep_delay (self s') = d"
      using s'(2) d by (simp add: continues_sleep_delay)
    have c2: "continues s ?s''"
      using s'(2) by (auto simp: eventlet_sleep_def intro: continues_trans continues_suspend)
    have e2: "effects (added s ?s'') = [Call (c ts), Sleep d]"
      using s'(2,3) dd
      by (simp add: eventlet_sleep_def added_trans [OF s'(2) continues_suspend(1)]
          continues_suspend effects_append)
    have r2: "reads ?s'' = Suc (reads s)"
      using s'(4) by (simp add: eventlet_sleep_def)
    have "exhibits ?s'' (f ?s'') (pass_model d (clock s) (Suc (reads s)) js)"
      using rest [OF c2] True r2 by simp
    then have "exhibits s (f ?s'')
        ([Call (c ts), Sleep d] @ fst (pass_model d (clock s) (Suc (reads s)) js),
         snd (pass_model d (clock s) (Suc (reads s)) js))"
      by (intro exhibits_step [OF c2 e2]) simp
    with True Inr M s'(1) show ?thesis
      by (simp add: guarded_def and_then_def)
  qed
qed

lemma exhibits_Flagged:
  assumes d: "sleep_delay (self s) = d"
  shows "exhibits s (guarded b timeout_inquiries msg s)
           (pass_model d (clock s) (reads s) [Flagged Purge_inquiries b])"
proof (cases b)
  case False
  then show ?thesis
    by (simp add: guarded_def exhibits_def final_def error_of_def continues_LOG)
next
  case True
  from timeout_inquiries_Inr [of s] obtain s' where
    s': "timeout_inquiries s = Inr s'" "continues s s'"
        "effects (added s s') = [Call Purge_inquiries]"
    by blast
  let ?s'' = "eventlet_sleep (sleep_delay (self s')) s'"
  have dd: "sleep_delay (self s') = d"
    using s'(2) d by (simp add: continues_sleep_delay)
  have c2: "continues s ?s''"
    using s'(2) by (auto simp: eventlet_sleep_def intro: continues_trans continues_suspend)
  have e2: "effects (added s ?s'') = [Call Purge_inquiries, Sleep d]"
    using s'(2,3) dd
    by (simp add: eventlet_sleep_def added_trans [OF s'(2) continues_suspend(1)]
        continues_suspend effects_append)
  from True s'(1) c2 e2 show ?thesis
    by (simp add: guarded_def and_then_def exhibits_def final_def error_of_def)
qed


lemma continues_conf:
  assumes "continues s s'"
  shows "action_executions_ttl (self s') = action_executions_ttl (self s)"
    and "action_executions_output_ttl (self s') = action_executions_output_ttl (self s)"
    and "trigger_instances_ttl (self s') = trigger_instances_ttl (self s)"
    and "purge_inquiries (self s') = purge_inquiries (self s)"
    and "collection_interval (self s') = collection_interval (self s)"
    and "clock s' = clock s"
proof -
  from assms have eq: "(self s')\<lparr>running := True\<rparr> = (self s)\<lparr>running := True\<rparr>"
    and "clock s' = clock s"
    by (simp_all add: continues_def)
  then show "clock s' = clock s" by simp
  have "action_executions_ttl ((self s')\<lparr>running := True\<rparr>) =
        action_executions_ttl ((self s)\<lparr>running := True\<rparr>)"
    by (simp only: eq)
  then show "action_executions_ttl (self s') = action_executions_ttl (self s)" by simp
  have "action_executions_output_ttl ((self s')\<lparr>running := True\<rparr>) =
        action_executions_output_ttl ((self s)\<lparr>running := True\<rparr>)"
    by (simp only: eq)
  then show "action_executions_output_ttl (self s') = action_executions_output_ttl (self s)"
    by simp
  have "trigger_instances_ttl ((self s')\<lparr>running := True\<rparr>) =
        trigger_instances_ttl ((self s)\<lparr>running := True\<rparr>)"
    by (simp only: eq)
  then show "trigger_instances_ttl (self s') = trigger_instances_ttl (self s)" by simp
  have "purge_inquiries ((self s')\<lparr>running := True\<rparr>) =
        purge_inquiries ((self s)\<lparr>running := True\<rparr>)"
    by (simp only: eq)
  then show "purge_inquiries (self s') = purge_inquiries (self s)" by simp
  have "collection_interval ((self s')\<lparr>running := True\<rparr>) =
        collection_interval ((self s)\<lparr>running := True\<rparr>)"
    by (simp only: eq)
  then show "collection_interval (self s') = collection_interval (self s)" by simp
qed

lemma perform_garbage_collection_eq:
  "perform_garbage_collection K s0 =
     (let s1 = LOG INFO ''Performing garbage collection...'' s0 in
      and_then
        (guarded (py_ge (action_executions_ttl (self s1)) (MINIMUM_TTL_DAYS K))
           (purge_action_executions K)
           ''Skipping garbage collection for action executions since it's not configured'' s1)
        (\<lambda>s2. and_then
          (guarded (py_ge (action_executions_output_ttl (self s2))
                      (MINIMUM_TTL_DAYS_EXECUTION_OUTPUT K))
             (purge_action_executions_output K)
             ''Skipping garbage collection for action executions output since it's not configured''
             s2)
          (\<lambda>s3. and_then
            (guarded (py_ge (trigger_instances_ttl (self s3)) (MINIMUM_TTL_DAYS K))
               (purge_trigger_instances K)
               ''Skipping garbage collection for trigger instances since it's not configured''
               s3)
            (\<lambda>s4. guarded (purge_inquiries (self s4)) timeout_inquiries
               ''Skipping garbage collection for Inquiries since it's not configured'' s4))))"
  unfolding perform_garbage_collection_def and_then_def guarded_def Let_def
  by (rule refl)

lemma pass_exhibits:
  "exhibits s (perform_garbage_collection K s)
     (pass_model (sleep_delay (self s)) (clock s) (reads s) (jobs K (self s)))"
proof -
  define d where "d = sleep_delay (self s)"
  let ?s1 = "LOG INFO ''Performing garbage collection...'' s"
  have c1: "continues s ?s1" and e1: "effects (added s ?s1) = []"
    by (simp_all add: continues_LOG)
  have d1: "sleep_delay (self ?s1) = d"
    by (simp add: d_def)
  have "exhibits ?s1
     (and_then
        (guarded (py_ge (action_executions_ttl (self ?s1)) (MINIMUM_TTL_DAYS K))
           (purge_action_executions K)
           ''Skipping garbage collection for action executions since it's not configured'' ?s1)
        (\<lambda>s2. and_then
          (guarded (py_ge (action_executions_output_ttl (self s2))
                      (MINIMUM_TTL_DAYS_EXECUTION_OUTPUT K))
             (purge_action_executions_output K)
             ''Skipping garbage collection for action executions output since it's not configured''
             s2)
          (\<lambda>s3. and_then
            (guarded (py_ge (trigger_instances_ttl (self s3)) (MINIMUM_TTL_DAYS K))
               (purge_trigger_instances K)
               ''Skipping garbage collection for trigger instances since it's not configured''
               s3)
            (\<lambda>s4. guarded (purge_inquiries (self s4)) timeout_inquiries
               ''Skipping garbage collection for Inquiries since it's not configured'' s4))))
     (pass_model d (clock ?s1) (reads ?s1)
        [Timed Purge_executions (action_executions_ttl (self ?s1)) (MINIMUM_TTL_DAYS K),
         Timed Purge_execution_output_objects (action_executions_output_ttl (self ?s1))
           (MINIMUM_TTL_DAYS_EXECUTION_OUTPUT K),
         Timed Purge_trigger_instances (trigger_instances_ttl (self ?s1)) (MINIMUM_TTL_DAYS K),
         Flagged Purge_inquiries (purge_inquiries (self ?s1))])"
  proof (rule exhibits_Timed [where M = "purge_action_executions K" and s = ?s1,
        OF purge_action_executions_eq d1])
    fix s2 assume c2: "continues ?s1 s2"
    have d2: "sleep_delay (self s2) = d"
      using c2 d1 by (simp add: continues_sleep_delay)
    have "exhibits s2
       (and_then
          (guarded (py_ge (action_executions_output_ttl (self s2))
                      (MINIMUM_TTL_DAYS_EXECUTION_OUTPUT K))
             (purge_action_executions_output K)
             ''Skipping garbage collection for action executions output since it's not configured''
             s2)
          (\<lambda>s3. and_then
            (guarded (py_ge (trigger_instances_ttl (self s3)) (MINIMUM_TTL_DAYS K))
               (purge_trigger_instances K)
               ''Skipping garbage collection for trigger instances since it's not configured''
               s3)
            (\<lambda>s4. guarded (purge_inquiries (self s4)) timeout_inquiries
               ''Skipping garbage collection for Inquiries since it's not configured'' s4)))
       (pass_model d (clock s2) (reads s2)
          [Timed Purge_execution_output_objects (action_executions_output_ttl (self s2))
             (MINIMUM_TTL_DAYS_EXECUTION_OUTPUT K),
           Timed Purge_trigger_instances (trigger_instances_ttl (self s2)) (MINIMUM_TTL_DAYS K),
           Flagged Purge_inquiries (purge_inquiries (self s2))])"
    proof (rule exhibits_Timed [where M = "purge_action_executions_output K" and s = s2,
          OF purge_action_executions_output_eq d2])
      fix s3 assume c3: "continues s2 s3"
      have d3: "sleep_delay (self s3) = d"
        using c3 d2 by (simp add: continues_sleep_delay)
      have "exhibits s3
         (and_then
            (guarded (py_ge (trigger_instances_ttl (self s3)) (MINIMUM_TTL_DAYS K))
               (purge_trigger_instances K)
               ''Skipping garbage collection for trigger instances since it's not configured''
               s3)
            (\<lambda>s4. guarded (purge_inquiries (self s4)) timeout_inquiries
               ''Skipping garbage collection for Inquiries since it's not configured'' s4))
         (pass_model d (clock s3) (reads s3)
            [Timed Purge_trigger_instances (trigger_instances_ttl (self s3))
               (MINIMUM_TTL_DAYS K),
             Flagged Purge_inquiries (purge_inquiries (self s3))])"
      proof (rule exhibits_Timed [where M = "purge_trigger_instances K" and s = s3,
            OF purge_trigger_instances_eq d3])
        fix s4 assume c4: "continues s3 s4"
        have d4: "sleep_delay (self s4) = d"
          using c4 d3 by (simp add: continues_sleep_delay)
        show "exhibits s4
           (guarded (purge_inquiries (self s4)) timeout_inquiries
              ''Skipping garbage collection for Inquiries since it's not configured'' s4)
           (pass_model d (clock s3) (reads s4)
              [Flagged Purge_inquiries (purge_inquiries (self s3))])"
          using exhibits_Flagged [OF d4, of "purge_inquiries (self s4)"] c4
          by (simp add: continues_conf)
      qed
      then show "exhibits s3
         (and_then
            (guarded (py_ge (trigger_instances_ttl (self s3)) (MINIMUM_TTL_DAYS K))
               (purge_trigger_instances K)
               ''Skipping garbage collection for trigger instances since it's not configured''
               s3)
            (\<lambda>s4. guarded (purge_inquiries (self s4)) timeout_inquiries
               ''Skipping garbage collection for Inquiries since it's not configured'' s4))
         (pass_model d (clock s2) (reads s3)
            [Timed Purge_trigger_instances (trigger_instances_ttl (self s2))
               (MINIMUM_TTL_DAYS K),
             Flagged Purge_inquiries (purge_inquiries (self s2))])"
        using c3 by (simp add: continues_conf)
    qed
    then show "exhibits s2
       (and_then
          (guarded (py_ge (action_executions_output_ttl (self s2))
                      (MINIMUM_TTL_DAYS_EXECUTION_OUTPUT K))
             (purge_action_executions_output K)
             ''Skipping garbage collection for action executions output since it's not configured''
             s2)
          (\<lambda>s3. and_then
            (guarded (py_ge (trigger_instances_ttl (self s3)) (MINIMUM_TTL_DAYS K))
               (purge_trigger_instances K)
               ''Skipping garbage collection for trigger instances since it's not configured''
               s3)
            (\<lambda>s4. guarded (purge_inquiries (self s4)) timeout_inquiries
               ''Skipping garbage collection for Inquiries since it's not configured'' s4)))
       (pass_model d (clock ?s1) (reads s2)
          [Timed Purge_execution_output_objects (action_executions_output_ttl (self ?s1))
             (MINIMUM_TTL_DAYS_EXECUTION_OUTPUT K),
           Timed Purge_trigger_instances (trigger_instances_ttl (self ?s1)) (MINIMUM_TTL_DAYS K),
           Flagged Purge_inquiries (purge_inquiries (self ?s1))])"
      using c2 by (simp add: continues_conf)
  qed
  then have "exhibits ?s1 (perform_garbage_collection K s)
     (pass_model d (clock s) (reads s) (jobs K (self s)))"
    by (simp add: perform_garbage_collection_eq jobs_def Let_def)
  then have "exhibits s (perform_garbage_collection K s)
     ([] @ fst (pass_model d (clock s) (reads s) (jobs K (self s))),
      snd (pass_model d (clock s) (reads s) (jobs K (self s))))"
    by (intro exhibits_step [OF c1 e1]) simp
  then show ?thesis by (simp add: d_def)
qed

subsection \<open>Validation\<close>

lemma validate_ok:
  "validate_ttl_values K svc = Inr () \<longleftrightarrow>
     ttl_valid (action_executions_ttl svc) (MINIMUM_TTL_DAYS K) \<and>
     ttl_valid (action_executions_output_ttl svc) (MINIMUM_TTL_DAYS_EXECUTION_OUTPUT K) \<and>
     ttl_valid (trigger_instances_ttl svc) (MINIMUM_TTL_DAYS K)"
  unfolding validate_ttl_values_def ttl_valid_def
  by (cases "action_executions_ttl svc"; cases "action_executions_output_ttl svc";
      cases "trigger_instances_ttl svc") auto

lemma validate_err:
  "validate_ttl_values K svc = Inl e \<Longrightarrow> \<exists>msg. e = ValueError msg"
  unfolding validate_ttl_values_def by (auto split: if_splits)

subsection \<open>The arithmetic of the cutoff\<close>

lemma day_pos: "0 < day"
  by (simp add: day_def)

lemma cutoff_Inr:
  assumes "cutoff ttl m now = Inr ts"
  shows "\<exists>t. ttl = Some t \<and> ts = now - t * day \<and> ts \<le> now - m * day \<and> ts < now \<and>
             m \<le> t \<and> 0 < t"
proof (cases ttl)
  case None
  with assms show ?thesis by (simp add: cutoff_def)
next
  case (Some t)
  with assms have ts: "ts = now - t * day" and le: "now - t * day \<le> now - m * day"
    and lt: "now - t * day < now"
    by (auto simp: cutoff_def datetime_sub_def split: if_splits)
  from le have "m * day \<le> t * day" by simp
  then have "m \<le> t" using day_pos by simp
  moreover from lt have "0 < t * day" by simp
  then have "0 < t" using day_pos by (simp add: zero_less_mult_iff)
  ultimately show ?thesis using Some ts le lt by simp
qed

lemma cutoff_Inl_enabled:
  assumes "py_ge ttl m" "0 < m" "cutoff ttl m now = Inl e"
  shows "e = OverflowError"
proof -
  from assms(1) obtain t where t: "ttl = Some t" "m \<le> t"
    by (cases ttl) auto
  have "m * day \<le> t * day" using t(2) day_pos by simp
  moreover have "0 < t * day" using t(2) assms(2) day_pos by simp
  ultimately show ?thesis
    using assms(3) t(1)
    by (auto simp: cutoff_def datetime_sub_def split: if_splits)
qed


lemma pass_model_error:
  "snd (pass_model d clk k js) = Some e \<Longrightarrow>
     \<exists>c ttl m k'. Timed c ttl m \<in> set js \<and> py_ge ttl m \<and> cutoff ttl m (clk k') = Inl e"
proof (induction d clk k js rule: pass_model.induct)
  case (1 d clk k)
  then show ?case by simp
next
  case (2 d clk k collab ttl_days minimum_days js)
  then show ?case
    by (fastforce split: if_splits sum.splits)
next
  case (3 d clk k c enabled js)
  then show ?case by (fastforce split: if_splits)
qed

lemma pass_model_call:
  "Call c \<in> set (fst (pass_model d clk k js)) \<Longrightarrow>
     (\<exists>mk ttl m k' ts. Timed mk ttl m \<in> set js \<and> k \<le> k' \<and>
          cutoff ttl m (clk k') = Inr ts \<and> c = mk ts) \<or>
     Flagged c True \<in> set js"
proof (induction d clk k js rule: pass_model.induct)
  case (1 d clk k)
  then show ?case by simp
next
  case (2 d clk k collab ttl_days minimum_days js)
  show ?case
  proof (cases "py_ge ttl_days minimum_days")
    case False
    with 2 show ?thesis by fastforce
  next
    case True
    show ?thesis
    proof (cases "cutoff ttl_days minimum_days (clk k)")
      case (Inl e)
      with True 2(4) show ?thesis by simp
    next
      case (Inr ts)
      with True 2(4) have "c = collab ts \<or> Call c \<in> set (fst (pass_model d clk (Suc k) js))"
        by auto
      then show ?thesis
      proof
        assume "c = collab ts"
        with Inr show ?thesis by fastforce
      next
        assume "Call c \<in> set (fst (pass_model d clk (Suc k) js))"
        from 2(1) [OF True Inr this] show ?thesis
        proof
          assume "\<exists>mk ttl m k' ts. Timed mk ttl m \<in> set js \<and> Suc k \<le> k' \<and>
            cutoff ttl m (clk k') = Inr ts \<and> c = mk ts"
          then obtain mk ttl m k' ts' where
            h: "Timed mk ttl m \<in> set js" "Suc k \<le> k'"
               "cutoff ttl m (clk k') = Inr ts'" "c = mk ts'"
            by blast
          have "Timed mk ttl m \<in> set (Timed collab ttl_days minimum_days # js)" "k \<le> k'"
            using h(1,2) by simp_all
          with h(3,4) show ?thesis by blast
        next
          assume "Flagged c True \<in> set js"
          then show ?thesis by simp
        qed
      qed
    qed
  qed
next
  case (3 d clk k c' enabled js)
  then show ?case by (fastforce split: if_splits)
qed

lemma set_effects: "set (effects es) = {e \<in> set es. \<forall>l m. e \<noteq> Log l m}"
  by (induction es rule: effects.induct) auto

lemma pass_facts:
  "continues s (final (perform_garbage_collection K s))"
  "effects (added s (final (perform_garbage_collection K s))) =
     fst (pass_model (sleep_delay (self s)) (clock s) (reads s) (jobs K (self s)))"
  "error_of (perform_garbage_collection K s) =
     snd (pass_model (sleep_delay (self s)) (clock s) (reads s) (jobs K (self s)))"
  using pass_exhibits [of s K] by (simp_all add: exhibits_def)

lemma purge_by_raises:
  assumes "purge_by ttl m c m1 m2 m3 s = Inl (e, s')"
  shows "cutoff ttl m (clock s (reads s)) = Inl e \<and> continues s s' \<and> effects (added s s') = []"
proof (cases "cutoff ttl m (clock s (reads s))")
  case (Inl e')
  from purge_by_Inl [OF Inl, of c m1 m2 m3] assms Inl show ?thesis by auto
next
  case (Inr ts)
  from purge_by_Inr [OF Inr, of c m1 m2 m3] assms show ?thesis by auto
qed

lemma error_of_Inl: "error_of r = Some e \<longleftrightarrow> (\<exists>s'. r = Inl (e, s'))"
  by (cases r) (auto simp: error_of_def)

lemma error_of_None: "error_of r = None \<longleftrightarrow> (\<exists>s'. r = Inr s')"
  by (cases r) (auto simp: error_of_def)

lemma pass_error_enabled:
  assumes "perform_garbage_collection K s = Inl (e, s')"
  shows "\<exists>ttl m k. py_ge ttl m \<and> cutoff ttl m (clock s k) = Inl e \<and>
           (m = MINIMUM_TTL_DAYS K \<or> m = MINIMUM_TTL_DAYS_EXECUTION_OUTPUT K)"
proof -
  from assms have "error_of (perform_garbage_collection K s) = Some e"
    by (simp add: error_of_def)
  then have "snd (pass_model (sleep_delay (self s)) (clock s) (reads s) (jobs K (self s))) = Some e"
    by (simp add: pass_facts)
  from pass_model_error [OF this] show ?thesis
    by (auto simp: jobs_def)
qed

lemma pass_call:
  assumes "Call c \<in> set (added s (final (perform_garbage_collection K s)))"
  shows "(\<exists>mk ttl m k ts. Timed mk ttl m \<in> set (jobs K (self s)) \<and> reads s \<le> k \<and>
            cutoff ttl m (clock s k) = Inr ts \<and> c = mk ts) \<or>
         Flagged c True \<in> set (jobs K (self s))"
proof -
  from assms have "Call c \<in> set (effects (added s (final (perform_garbage_collection K s))))"
    by (simp add: set_effects)
  then show ?thesis
    unfolding pass_facts by (rule pass_model_call)
qed

subsection \<open>The small installation\<close>

lemma example_simps:
  "MINIMUM_TTL_DAYS example_constants = 7"
  "MINIMUM_TTL_DAYS_EXECUTION_OUTPUT example_constants = 1"
  "self example_state = example_service"
  "events example_state = []"
  "reads example_state = 0"
  "clock example_state k = 739000 * day + int k * 1000000"
  "collaborator example_state c h = None"
  "shutdown_at example_state k = False"
  "collection_interval example_service = 600"
  "action_executions_ttl example_service = Some 30"
  "action_executions_output_ttl example_service = None"
  "trigger_instances_ttl example_service = Some 0"
  "purge_inquiries example_service = True"
  "sleep_delay example_service = 2"
  "running example_service = True"
  by (simp_all add: example_constants_def example_state_def example_service_def)

subsection \<open>The purges and sleeps of a pass\<close>

lemma steps_effects: "steps (effects es) = steps es"
  by (induction es rule: effects.induct) auto

lemma pass_steps:
  "steps (added s (final (perform_garbage_collection K s))) =
     steps (fst (pass_model (sleep_delay (self s)) (clock s) (reads s) (jobs K (self s))))"
  using pass_facts(2) [of s K] steps_effects by metis

lemma disabled_guard: "disabled ttl \<Longrightarrow> 0 < m \<Longrightarrow> \<not> py_ge ttl m"
  by (cases ttl) (auto simp: disabled_def)

lemma timed_steps:
  "steps (fst (pass_model d clk k (Timed c ttl m # js))) =
     (if py_ge ttl m
      then (case cutoff ttl m (clk k) of Inl e \<Rightarrow> []
            | Inr ts \<Rightarrow> Purged (category_of (c ts)) # Slept d #
                steps (fst (pass_model d clk (Suc k) js)))
      else steps (fst (pass_model d clk k js)))"
  by (simp split: sum.split)

lemma timed_error:
  "snd (pass_model d clk k (Timed c ttl m # js)) =
     (if py_ge ttl m
      then (case cutoff ttl m (clk k) of Inl e \<Rightarrow> Some e
            | Inr ts \<Rightarrow> snd (pass_model d clk (Suc k) js))
      else snd (pass_model d clk k js))"
  by (simp split: sum.split)

lemma pass_model_jobs_returned:
  assumes "snd (pass_model d clk k (jobs K svc)) = None"
  shows "steps (fst (pass_model d clk k (jobs K svc))) =
     (if py_ge (action_executions_ttl svc) (MINIMUM_TTL_DAYS K)
      then [Purged Executions, Slept d] else []) @
     (if py_ge (action_executions_output_ttl svc) (MINIMUM_TTL_DAYS_EXECUTION_OUTPUT K)
      then [Purged Execution_output, Slept d] else []) @
     (if py_ge (trigger_instances_ttl svc) (MINIMUM_TTL_DAYS K)
      then [Purged Trigger_instances, Slept d] else []) @
     (if purge_inquiries svc then [Purged Inquiries, Slept d] else [])"
  using assms unfolding jobs_def timed_steps timed_error
  by (auto split: sum.splits if_splits)

lemma pass_model_jobs_steps:
  assumes "0 < MINIMUM_TTL_DAYS K" "0 < MINIMUM_TTL_DAYS_EXECUTION_OUTPUT K"
  shows "(disabled (action_executions_ttl svc) \<longrightarrow>
            Purged Executions \<notin> set (steps (fst (pass_model d clk k (jobs K svc))))) \<and>
         (disabled (action_executions_output_ttl svc) \<longrightarrow>
            Purged Execution_output \<notin> set (steps (fst (pass_model d clk k (jobs K svc))))) \<and>
         (disabled (trigger_instances_ttl svc) \<longrightarrow>
            Purged Trigger_instances \<notin> set (steps (fst (pass_model d clk k (jobs K svc))))) \<and>
         (\<not> purge_inquiries svc \<longrightarrow>
            Purged Inquiries \<notin> set (steps (fst (pass_model d clk k (jobs K svc))))) \<and>
         length (filter is_Slept (steps (fst (pass_model d clk k (jobs K svc)))))
           \<le> (if disabled (action_executions_ttl svc) then 0 else 1) +
              (if disabled (action_executions_output_ttl svc) then 0 else 1) +
              (if disabled (trigger_instances_ttl svc) then 0 else 1) +
              (if purge_inquiries svc then 1 else 0)"
  using assms disabled_guard [of "action_executions_ttl svc" "MINIMUM_TTL_DAYS K"]
    disabled_guard [of "action_executions_output_ttl svc" "MINIMUM_TTL_DAYS_EXECUTION_OUTPUT K"]
    disabled_guard [of "trigger_instances_ttl svc" "MINIMUM_TTL_DAYS K"]
  unfolding jobs_def timed_steps
  by (auto split: sum.splits)


lemmas run_defs = perform_garbage_collection_def purge_action_executions_def
  purge_action_executions_output_def purge_trigger_instances_def timeout_inquiries_def
  get_datetime_utc_now_def invoke_def eventlet_sleep_def suspend_def LOG_def shutdown_def
  datetime_sub_def day_def datetime_max_def Let_def

subsection \<open>The main loop and the handlers of the purge methods\<close>

lemma main_loop_stopped: "\<not> running (self s) \<Longrightarrow> main_loop K s = Some (Inr s)"
  by (subst main_loop.simps) simp


lemma main_loop_next:
  "running (self s) \<Longrightarrow> perform_garbage_collection K s = Inr s1 \<Longrightarrow>
     main_loop K s =
       main_loop K (eventlet_sleep (collection_interval (self s1))
         (LOG INFO ''Sleeping for %s seconds before next garbage collection...'' s1))"
  by (subst main_loop.simps) simp

lemma main_loop_exit:
  assumes "main_loop K s = Some r"
  shows "\<forall>s'. r = Inr s' \<longrightarrow> \<not> running (self s')"
  using assms
proof (induction rule: main_loop.raw_induct [rotated, consumes 1])
  case (1 main_loop' K s r)
  show ?case
  proof (cases "running (self s)")
    case False
    with 1(2) show ?thesis by auto
  next
    case True
    show ?thesis
    proof (cases "perform_garbage_collection K s")
      case (Inl x)
      with True 1(2) show ?thesis by auto
    next
      case (Inr s1)
      with True 1(2) have "main_loop' K (eventlet_sleep (collection_interval (self s1))
          (LOG INFO ''Sleeping for %s seconds before next garbage collection...'' s1)) = Some r"
        by simp
      then show ?thesis by (rule 1(1))
    qed
  qed
qed



lemma pass_same:
  assumes "self s' = self s" "clock s' = clock s" "reads s' = reads s"
  shows "error_of (perform_garbage_collection K s') = error_of (perform_garbage_collection K s)"
    and "effects (added s' (final (perform_garbage_collection K s'))) =
         effects (added s (final (perform_garbage_collection K s)))"
  using assms by (simp_all add: pass_facts)

subsection \<open>The signal handler\<close>

lemma handler_added:
  "added s (final (handle_sigusr2 K n s)) =
     Log INFO ''Forcing garbage collection...'' #
     added (LOG INFO ''Forcing garbage collection...'' s)
       (final (perform_garbage_collection K (LOG INFO ''Forcing garbage collection...'' s)))"
  unfolding handle_sigusr2_def
  using added_trans [OF continues_LOG(1) pass_facts(1)]
  by (simp add: continues_LOG)

subsection \<open>The result aggregator\<close>

lemma list_ex_snd: "list_ex snd xs \<longleftrightarrow> (\<exists>t\<in>set xs. snd t)"
  by (simp add: list_ex_iff)

lemma list_all_snd: "list_all snd xs \<longleftrightarrow> (\<forall>t\<in>set xs. snd t)"
  by (simp add: list_all_iff)

text \<open>The cases of \<^verbatim>\<open>TestFabricRunnerResultStatus\<close>.\<close>

lemma test_fabricrunner:
  "get_result_status [(''1'', True), (''2'', True), (''3'', True)] True = SUCCEEDED"
  "get_result_status [(''1'', False), (''2'', True), (''3'', False)] True = SUCCEEDED"
  "get_result_status [(''1'', True), (''2'', False), (''3'', False)] True = SUCCEEDED"
  "get_result_status [(''1'', False), (''2'', False), (''3'', True)] True = SUCCEEDED"
  "get_result_status [(''1'', False), (''2'', False), (''3'', False)] True = FAILED"
  "get_result_status [(''1'', True), (''2'', True), (''3'', True)] False = SUCCEEDED"
  "get_result_status [(''1'', False), (''2'', True), (''3'', False)] False = FAILED"
  "get_result_status [(''1'', True), (''2'', False), (''3'', False)] False = FAILED"
  "get_result_status [(''1'', False), (''2'', False), (''3'', True)] False = FAILED"
  "get_result_status [(''1'', False), (''2'', False), (''3'', False)] False = FAILED"
  by (simp_all add: get_result_status_def)

subsection \<open>A cutoff later than the floor, and a pass that ends with an exception\<close>






section \<open>The claims\<close>

text \<open>
  C3. At construction, a TTL that is nonzero and below the minimum of its category makes
  the constructor fail with the ValueError of the validation; when each of the three
  TTLs is unset, zero or at least its minimum, the constructor returns the object.
\<close>

theorem construction_validates_ttls:
  "(ttl_valid (cfg_action_executions_ttl conf) (MINIMUM_TTL_DAYS K) \<and>
    ttl_valid (cfg_action_executions_output_ttl conf) (MINIMUM_TTL_DAYS_EXECUTION_OUTPUT K) \<and>
    ttl_valid (cfg_trigger_instances_ttl conf) (MINIMUM_TTL_DAYS K)
    \<longrightarrow> (\<exists>svc. init K conf interval delay = Inr svc)) \<and>
   (\<not> (ttl_valid (cfg_action_executions_ttl conf) (MINIMUM_TTL_DAYS K) \<and>
    ttl_valid (cfg_action_executions_output_ttl conf) (MINIMUM_TTL_DAYS_EXECUTION_OUTPUT K) \<and>
    ttl_valid (cfg_trigger_instances_ttl conf) (MINIMUM_TTL_DAYS K))
    \<longrightarrow> (\<exists>msg. init K conf interval delay = Inl (ValueError msg)))"
proof -
  let ?svc = "\<lparr>collection_interval = interval,
                 action_executions_ttl = cfg_action_executions_ttl conf,
                 action_executions_output_ttl = cfg_action_executions_output_ttl conf,
                 trigger_instances_ttl = cfg_trigger_instances_ttl conf,
                 purge_inquiries = cfg_purge_inquiries conf,
                 sleep_delay = delay,
                 running = False\<rparr>"
  have i: "init K conf interval delay =
      (case validate_ttl_values K ?svc of Inl e \<Rightarrow> Inl e | Inr _ \<Rightarrow> Inr ?svc)"
    by (simp add: init_def Let_def)
  show ?thesis
  proof (cases "validate_ttl_values K ?svc")
    case (Inl e)
    then obtain msg where "e = ValueError msg" using validate_err by blast
    moreover have "\<not> (ttl_valid (cfg_action_executions_ttl conf) (MINIMUM_TTL_DAYS K) \<and>
      ttl_valid (cfg_action_executions_output_ttl conf) (MINIMUM_TTL_DAYS_EXECUTION_OUTPUT K) \<and>
      ttl_valid (cfg_trigger_instances_ttl conf) (MINIMUM_TTL_DAYS K))"
      using Inl validate_ok [of K ?svc] by simp
    ultimately show ?thesis using Inl i by simp
  next
    case (Inr u)
    then have "ttl_valid (cfg_action_executions_ttl conf) (MINIMUM_TTL_DAYS K) \<and>
      ttl_valid (cfg_action_executions_output_ttl conf) (MINIMUM_TTL_DAYS_EXECUTION_OUTPUT K) \<and>
      ttl_valid (cfg_trigger_instances_ttl conf) (MINIMUM_TTL_DAYS K)"
      using validate_ok [of K ?svc] by simp
    then show ?thesis using Inr i by simp
  qed
qed

theorem construction_validates_ttls_witness:
  "(\<exists>svc. init example_constants example_conf 600 2 = Inr svc) \<and>
   (\<exists>msg. init example_constants (example_conf\<lparr>cfg_action_executions_ttl := Some 6\<rparr>) 600 2
      = Inl (ValueError msg)) \<and>
   (\<exists>msg. init example_constants (example_conf\<lparr>cfg_action_executions_output_ttl := Some (-1)\<rparr>) 600 2
      = Inl (ValueError msg))"
  using construction_validates_ttls [of example_conf example_constants 600 2]
    construction_validates_ttls
      [of "example_conf\<lparr>cfg_action_executions_ttl := Some 6\<rparr>" example_constants 600 2]
    construction_validates_ttls
      [of "example_conf\<lparr>cfg_action_executions_output_ttl := Some (-1)\<rparr>" example_constants 600 2]
  by (simp add: ttl_valid_def example_conf_def example_constants_def)

text \<open>
  C10. With positive minimums, no pass ends in the ValueError of the cutoff check or in
  the AssertionError: the only exception a pass can end with is the OverflowError of the
  date arithmetic. The same holds for each purge method whenever the guard of the pass
  holds for it. This needs no assumption on how the object was constructed.
\<close>

theorem cutoff_checks_never_fire:
  assumes "0 < MINIMUM_TTL_DAYS K" and "0 < MINIMUM_TTL_DAYS_EXECUTION_OUTPUT K"
  shows "(\<forall>e s'. perform_garbage_collection K s = Inl (e, s') \<longrightarrow> e = OverflowError) \<and>
    (\<forall>e s'. py_ge (action_executions_ttl (self s)) (MINIMUM_TTL_DAYS K) \<longrightarrow>
        purge_action_executions K s = Inl (e, s') \<longrightarrow> e = OverflowError) \<and>
    (\<forall>e s'. py_ge (action_executions_output_ttl (self s)) (MINIMUM_TTL_DAYS_EXECUTION_OUTPUT K) \<longrightarrow>
        purge_action_executions_output K s = Inl (e, s') \<longrightarrow> e = OverflowError) \<and>
    (\<forall>e s'. py_ge (trigger_instances_ttl (self s)) (MINIMUM_TTL_DAYS K) \<longrightarrow>
        purge_trigger_instances K s = Inl (e, s') \<longrightarrow> e = OverflowError)"
proof (intro conjI allI impI)
  fix e s' assume "perform_garbage_collection K s = Inl (e, s')"
  from pass_error_enabled [OF this] assms show "e = OverflowError"
    by (auto dest: cutoff_Inl_enabled)
next
  fix e s'
  assume "py_ge (action_executions_ttl (self s)) (MINIMUM_TTL_DAYS K)"
    and "purge_action_executions K s = Inl (e, s')"
  then show "e = OverflowError"
    using assms(1) purge_by_raises cutoff_Inl_enabled
    unfolding purge_action_executions_eq by blast
next
  fix e s'
  assume "py_ge (action_executions_output_ttl (self s)) (MINIMUM_TTL_DAYS_EXECUTION_OUTPUT K)"
    and "purge_action_executions_output K s = Inl (e, s')"
  then show "e = OverflowError"
    using assms(2) purge_by_raises cutoff_Inl_enabled
    unfolding purge_action_executions_output_eq by blast
next
  fix e s'
  assume "py_ge (trigger_instances_ttl (self s)) (MINIMUM_TTL_DAYS K)"
    and "purge_trigger_instances K s = Inl (e, s')"
  then show "e = OverflowError"
    using assms(1) purge_by_raises cutoff_Inl_enabled
    unfolding purge_trigger_instances_eq by blast
qed

theorem cutoff_checks_never_fire_witness:
  "0 < MINIMUM_TTL_DAYS example_constants \<and>
   0 < MINIMUM_TTL_DAYS_EXECUTION_OUTPUT example_constants \<and>
   (\<exists>s'. perform_garbage_collection example_constants
      (example_state\<lparr>self := example_service\<lparr>action_executions_ttl := Some 800000\<rparr>\<rparr>)
      = Inl (OverflowError, s'))"
proof -
  let ?s = "example_state\<lparr>self := example_service\<lparr>action_executions_ttl := Some 800000\<rparr>\<rparr>"
  have pos: "0 < MINIMUM_TTL_DAYS example_constants"
    "0 < MINIMUM_TTL_DAYS_EXECUTION_OUTPUT example_constants"
    by (simp_all add: example_simps)
  have "error_of (perform_garbage_collection example_constants ?s) \<noteq> None"
    by (simp add: pass_facts jobs_def example_simps cutoff_def datetime_sub_def day_def)
  then obtain e s' where r: "perform_garbage_collection example_constants ?s = Inl (e, s')"
    by (auto simp: error_of_Inl)
  with cutoff_checks_never_fire [OF pos, of ?s] have "e = OverflowError"
    by blast
  with r pos show ?thesis
    by blast
qed

text \<open>
  C6, as amended. In a pass, a purge collaborator of a category with a TTL is called only
  with a cutoff \<open>now - TTL\<close> that is at or before \<open>now - minimum\<close>, where \<open>now\<close> is
  a reading of the clock made during the pass; the TTL is then at least the minimum. The
  cutoff need not be strictly earlier: a TTL equal to the minimum is purged.
\<close>

theorem purge_only_at_or_before_floor:
  "(\<forall>ts. Call (Purge_executions ts) \<in> set (added s (final (perform_garbage_collection K s)))
      \<longrightarrow> (\<exists>k t. reads s \<le> k \<and> action_executions_ttl (self s) = Some t \<and>
             ts = clock s k - t * day \<and>
             ts \<le> clock s k - MINIMUM_TTL_DAYS K * day \<and> MINIMUM_TTL_DAYS K \<le> t)) \<and>
   (\<forall>ts. Call (Purge_execution_output_objects ts)
        \<in> set (added s (final (perform_garbage_collection K s)))
      \<longrightarrow> (\<exists>k t. reads s \<le> k \<and> action_executions_output_ttl (self s) = Some t \<and>
             ts = clock s k - t * day \<and>
             ts \<le> clock s k - MINIMUM_TTL_DAYS_EXECUTION_OUTPUT K * day \<and>
             MINIMUM_TTL_DAYS_EXECUTION_OUTPUT K \<le> t)) \<and>
   (\<forall>ts. Call (Purge_trigger_instances ts)
        \<in> set (added s (final (perform_garbage_collection K s)))
      \<longrightarrow> (\<exists>k t. reads s \<le> k \<and> trigger_instances_ttl (self s) = Some t \<and>
             ts = clock s k - t * day \<and>
             ts \<le> clock s k - MINIMUM_TTL_DAYS K * day \<and> MINIMUM_TTL_DAYS K \<le> t))"
proof (intro conjI allI impI)
  fix ts
  assume "Call (Purge_executions ts) \<in> set (added s (final (perform_garbage_collection K s)))"
  from pass_call [OF this] obtain k ts' where
    "reads s \<le> k" "ts = ts'"
    "cutoff (action_executions_ttl (self s)) (MINIMUM_TTL_DAYS K) (clock s k) = Inr ts'"
    by (auto simp: jobs_def)
  then show "\<exists>k t. reads s \<le> k \<and> action_executions_ttl (self s) = Some t \<and>
             ts = clock s k - t * day \<and>
             ts \<le> clock s k - MINIMUM_TTL_DAYS K * day \<and> MINIMUM_TTL_DAYS K \<le> t"
    using cutoff_Inr by blast
next
  fix ts
  assume "Call (Purge_execution_output_objects ts)
    \<in> set (added s (final (perform_garbage_collection K s)))"
  from pass_call [OF this] obtain k ts' where
    "reads s \<le> k" "ts = ts'"
    "cutoff (action_executions_output_ttl (self s)) (MINIMUM_TTL_DAYS_EXECUTION_OUTPUT K)
       (clock s k) = Inr ts'"
    by (auto simp: jobs_def)
  then show "\<exists>k t. reads s \<le> k \<and> action_executions_output_ttl (self s) = Some t \<and>
             ts = clock s k - t * day \<and>
             ts \<le> clock s k - MINIMUM_TTL_DAYS_EXECUTION_OUTPUT K * day \<and>
             MINIMUM_TTL_DAYS_EXECUTION_OUTPUT K \<le> t"
    using cutoff_Inr by blast
next
  fix ts
  assume "Call (Purge_trigger_instances ts)
    \<in> set (added s (final (perform_garbage_collection K s)))"
  from pass_call [OF this] obtain k ts' where
    "reads s \<le> k" "ts = ts'"
    "cutoff (trigger_instances_ttl (self s)) (MINIMUM_TTL_DAYS K) (clock s k) = Inr ts'"
    by (auto simp: jobs_def)
  then show "\<exists>k t. reads s \<le> k \<and> trigger_instances_ttl (self s) = Some t \<and>
             ts = clock s k - t * day \<and>
             ts \<le> clock s k - MINIMUM_TTL_DAYS K * day \<and> MINIMUM_TTL_DAYS K \<le> t"
    using cutoff_Inr by blast
qed

theorem purge_only_at_or_before_floor_witness:
  "Call (Purge_executions (clock example_state 0 - 30 * day))
     \<in> set (added example_state (final (perform_garbage_collection example_constants example_state))) \<and>
   (\<exists>k t. reads example_state \<le> k \<and> action_executions_ttl (self example_state) = Some t \<and>
      clock example_state 0 - 30 * day = clock example_state k - t * day \<and>
      clock example_state 0 - 30 * day
        \<le> clock example_state k - MINIMUM_TTL_DAYS example_constants * day \<and>
      MINIMUM_TTL_DAYS example_constants \<le> t)"
proof -
  have "effects (added example_state
      (final (perform_garbage_collection example_constants example_state))) =
     [Call (Purge_executions (clock example_state 0 - 30 * day)), Sleep 2,
      Call Purge_inquiries, Sleep 2]"
    by (simp add: pass_facts jobs_def example_simps cutoff_def datetime_sub_def day_def
      datetime_max_def)
  then have "Call (Purge_executions (clock example_state 0 - 30 * day))
     \<in> set (effects (added example_state
          (final (perform_garbage_collection example_constants example_state))))"
    by simp
  then have m: "Call (Purge_executions (clock example_state 0 - 30 * day))
     \<in> set (added example_state
          (final (perform_garbage_collection example_constants example_state)))"
    by (simp add: set_effects)
  with purge_only_at_or_before_floor [of example_state example_constants] show ?thesis
    by blast
qed

text \<open>
  C6, as stated, fails when the TTL equals the minimum: the collaborator is called with
  the cutoff \<open>now - minimum\<close>, which is not strictly earlier than \<open>now - minimum\<close>.
\<close>

theorem cutoff_at_floor_counterexample:
  "effects (added (example_state\<lparr>self := example_service\<lparr>action_executions_ttl := Some 7\<rparr>\<rparr>)
     (final (perform_garbage_collection example_constants
        (example_state\<lparr>self := example_service\<lparr>action_executions_ttl := Some 7\<rparr>\<rparr>)))) =
     [Call (Purge_executions (clock example_state 0 - 7 * day)), Sleep 2,
      Call Purge_inquiries, Sleep 2] \<and>
   \<not> clock example_state 0 - 7 * day
       < clock example_state 0 - MINIMUM_TTL_DAYS example_constants * day"
  by (simp add: pass_facts jobs_def example_simps cutoff_def datetime_sub_def day_def
      datetime_max_def)

text \<open>
  C7. With positive minimums, a category that is disabled (its TTL unset or zero, or the
  inquiries flag false) is never purged in a pass, and a pass sleeps at most once for each
  category that is not disabled: no sleep is spent on a disabled one.
\<close>

theorem disabled_category_skipped:
  assumes "0 < MINIMUM_TTL_DAYS K" and "0 < MINIMUM_TTL_DAYS_EXECUTION_OUTPUT K"
  shows "(disabled (action_executions_ttl (self s)) \<longrightarrow>
            Purged Executions
              \<notin> set (steps (added s (final (perform_garbage_collection K s))))) \<and>
         (disabled (action_executions_output_ttl (self s)) \<longrightarrow>
            Purged Execution_output
              \<notin> set (steps (added s (final (perform_garbage_collection K s))))) \<and>
         (disabled (trigger_instances_ttl (self s)) \<longrightarrow>
            Purged Trigger_instances
              \<notin> set (steps (added s (final (perform_garbage_collection K s))))) \<and>
         (\<not> purge_inquiries (self s) \<longrightarrow>
            Purged Inquiries
              \<notin> set (steps (added s (final (perform_garbage_collection K s))))) \<and>
         length (filter is_Slept (steps (added s (final (perform_garbage_collection K s)))))
           \<le> (if disabled (action_executions_ttl (self s)) then 0 else 1) +
              (if disabled (action_executions_output_ttl (self s)) then 0 else 1) +
              (if disabled (trigger_instances_ttl (self s)) then 0 else 1) +
              (if purge_inquiries (self s) then 1 else 0)"
  unfolding pass_steps by (rule pass_model_jobs_steps [OF assms])

theorem disabled_category_skipped_witness:
  "0 < MINIMUM_TTL_DAYS example_constants \<and>
   0 < MINIMUM_TTL_DAYS_EXECUTION_OUTPUT example_constants \<and>
   disabled (action_executions_output_ttl (self example_state)) \<and>
   Purged Execution_output
     \<notin> set (steps (added example_state
          (final (perform_garbage_collection example_constants example_state)))) \<and>
   disabled (trigger_instances_ttl (self example_state)) \<and>
   Purged Trigger_instances
     \<notin> set (steps (added example_state
          (final (perform_garbage_collection example_constants example_state)))) \<and>
   length (filter is_Slept (steps (added example_state
          (final (perform_garbage_collection example_constants example_state))))) \<le> 2"
proof -
  have pos: "0 < MINIMUM_TTL_DAYS example_constants"
    "0 < MINIMUM_TTL_DAYS_EXECUTION_OUTPUT example_constants"
    by (simp_all add: example_simps)
  have d: "disabled (action_executions_output_ttl (self example_state))"
    "disabled (trigger_instances_ttl (self example_state))"
    "\<not> disabled (action_executions_ttl (self example_state))"
    "purge_inquiries (self example_state)"
    by (simp_all add: example_simps disabled_def)
  from disabled_category_skipped [OF pos, of example_state] pos d show ?thesis
    by simp
qed

text \<open>
  C8, as amended. In a pass that returns, each category whose guard holds is purged and
  then slept for, \<^verbatim>\<open>sleep_delay\<close> seconds, in the fixed order; this includes the
  last purged category. Whether a collaborator returned or raised makes no difference. A
  skipped category adds neither a purge nor a sleep.
\<close>

theorem sleep_after_each_purged_category:
  assumes "perform_garbage_collection K s = Inr s'"
  shows "steps (added s s') =
     (if py_ge (action_executions_ttl (self s)) (MINIMUM_TTL_DAYS K)
      then [Purged Executions, Slept (sleep_delay (self s))] else []) @
     (if py_ge (action_executions_output_ttl (self s)) (MINIMUM_TTL_DAYS_EXECUTION_OUTPUT K)
      then [Purged Execution_output, Slept (sleep_delay (self s))] else []) @
     (if py_ge (trigger_instances_ttl (self s)) (MINIMUM_TTL_DAYS K)
      then [Purged Trigger_instances, Slept (sleep_delay (self s))] else []) @
     (if purge_inquiries (self s) then [Purged Inquiries, Slept (sleep_delay (self s))] else [])"
proof -
  from assms have f: "final (perform_garbage_collection K s) = s'"
    and "error_of (perform_garbage_collection K s) = None"
    by (simp_all add: final_def error_of_def)
  then have "snd (pass_model (sleep_delay (self s)) (clock s) (reads s) (jobs K (self s))) = None"
    by (simp add: pass_facts)
  from pass_model_jobs_returned [OF this] show ?thesis
    using pass_steps [of s K] f by simp
qed

theorem sleep_after_each_purged_category_witness:
  "\<exists>s'. perform_garbage_collection example_constants example_state = Inr s' \<and>
      steps (added example_state s') = [Purged Executions, Slept 2, Purged Inquiries, Slept 2]"
proof -
  have "error_of (perform_garbage_collection example_constants example_state) = None"
    by (simp add: pass_facts jobs_def example_simps cutoff_def datetime_sub_def day_def
        datetime_max_def)
  then obtain s' where r: "perform_garbage_collection example_constants example_state = Inr s'"
    by (auto simp: error_of_None)
  from sleep_after_each_purged_category [OF r] r show ?thesis
    by (simp add: example_simps)
qed

text \<open>
  C8, as stated, fails: with inquiries the only enabled category, the pass still sleeps
  after purging it, and the sleep is the last effect of the pass.
\<close>

theorem sleep_after_last_category_counterexample:
  "steps (added (example_state\<lparr>self := example_service\<lparr>action_executions_ttl := None\<rparr>\<rparr>)
     (final (perform_garbage_collection example_constants
        (example_state\<lparr>self := example_service\<lparr>action_executions_ttl := None\<rparr>\<rparr>)))) =
     [Purged Inquiries, Slept 2] \<and>
   last (events (final (perform_garbage_collection example_constants
        (example_state\<lparr>self := example_service\<lparr>action_executions_ttl := None\<rparr>\<rparr>)))) =
     Sleep 2"
  by (simp add: run_defs final_def added_def example_constants_def example_state_def
      example_service_def)



text \<open>
  C9. \<^verbatim>\<open>shutdown()\<close> sets \<^verbatim>\<open>_running\<close> to false and nothing else. A pass does not
  read the flag: whenever other green threads call \<^verbatim>\<open>shutdown()\<close>, the pass makes the
  same collaborator calls and sleeps and ends the same way. The main loop reads the flag
  only at the head of an iteration: after a stop it returns once the pass under way and
  the sleep after it are over, and whenever it returns normally the flag is false.
\<close>

theorem stop_is_cooperative:
  "shutdown svc = svc\<lparr>running := False\<rparr> \<and>
   (\<forall>g. error_of (perform_garbage_collection K (s\<lparr>shutdown_at := g\<rparr>)) =
          error_of (perform_garbage_collection K s) \<and>
        effects (added (s\<lparr>shutdown_at := g\<rparr>)
          (final (perform_garbage_collection K (s\<lparr>shutdown_at := g\<rparr>)))) =
          effects (added s (final (perform_garbage_collection K s)))) \<and>
   (\<forall>s1. running (self s) \<longrightarrow> perform_garbage_collection K s = Inr s1 \<longrightarrow>
      \<not> running (self (eventlet_sleep (collection_interval (self s1))
          (LOG INFO ''Sleeping for %s seconds before next garbage collection...'' s1))) \<longrightarrow>
      main_loop K s =
        Some (Inr (eventlet_sleep (collection_interval (self s1))
          (LOG INFO ''Sleeping for %s seconds before next garbage collection...'' s1)))) \<and>
   (\<forall>s'. main_loop K s = Some (Inr s') \<longrightarrow> \<not> running (self s'))"
proof (intro conjI allI impI)
  show "shutdown svc = svc\<lparr>running := False\<rparr>"
    by (simp add: shutdown_def)
next
  fix g
  show "error_of (perform_garbage_collection K (s\<lparr>shutdown_at := g\<rparr>)) =
      error_of (perform_garbage_collection K s)"
    by (rule pass_same) simp_all
  show "effects (added (s\<lparr>shutdown_at := g\<rparr>)
      (final (perform_garbage_collection K (s\<lparr>shutdown_at := g\<rparr>)))) =
      effects (added s (final (perform_garbage_collection K s)))"
    by (rule pass_same) simp_all
next
  fix s1
  let ?s2 = "eventlet_sleep (collection_interval (self s1))
          (LOG INFO ''Sleeping for %s seconds before next garbage collection...'' s1)"
  assume "running (self s)" and "perform_garbage_collection K s = Inr s1"
    and stopped: "\<not> running (self ?s2)"
  then have "main_loop K s = main_loop K ?s2"
    by (simp add: main_loop_next)
  with stopped show "main_loop K s = Some (Inr ?s2)"
    by (simp add: main_loop_stopped)
next
  fix s'
  assume "main_loop K s = Some (Inr s')"
  from main_loop_exit [OF this] show "\<not> running (self s')"
    by simp
qed


theorem stop_is_cooperative_witness:
  "running (self (example_state\<lparr>shutdown_at := (\<lambda>k. k = 3)\<rparr>)) \<and>
   events (example_state\<lparr>shutdown_at := (\<lambda>k. k = 3)\<rparr>) = [] \<and>
   (\<exists>s2. main_loop example_constants (example_state\<lparr>shutdown_at := (\<lambda>k. k = 3)\<rparr>)
            = Some (Inr s2) \<and>
         effects (events s2) =
           [Call (Purge_executions (clock example_state 0 - 30 * day)), Sleep 2,
            Call Purge_inquiries, Sleep 2, Sleep 600])"
proof -
  let ?s = "example_state\<lparr>shutdown_at := (\<lambda>k. k = 3)\<rparr>"
  let ?s1 = "final (perform_garbage_collection example_constants ?s)"
  let ?s2 = "eventlet_sleep (collection_interval (self ?s1))
          (LOG INFO ''Sleeping for %s seconds before next garbage collection...'' ?s1)"
  have r: "running (self ?s)" and e: "events ?s = []"
    by (simp_all add: example_simps)
  have p: "perform_garbage_collection example_constants ?s = Inr ?s1"
    by (simp add: run_defs final_def example_constants_def example_state_def
        example_service_def)
  have stopped: "\<not> running (self ?s2)"
    by (simp add: run_defs final_def example_constants_def example_state_def
        example_service_def)
  have ev: "effects (events ?s2) =
           [Call (Purge_executions (clock example_state 0 - 30 * day)), Sleep 2,
            Call Purge_inquiries, Sleep 2, Sleep 600]"
    by (simp add: run_defs final_def example_constants_def example_state_def
        example_service_def)
  from stop_is_cooperative [of example_service example_constants ?s] r p stopped
  have "main_loop example_constants ?s = Some (Inr ?s2)"
    by blast
  with r e ev show ?thesis by blast
qed

text \<open>
  C4, as amended. The handler of SIGUSR2 logs one line and runs a whole collection pass
  itself, before it returns: it makes the collaborator calls and sleeps that a scheduled
  pass would make in the same state, ends the same way, and leaves the service object as
  a pass leaves it: no request is recorded on it.
\<close>

theorem signal_handler_runs_pass:
  "handle_sigusr2 K signal_number s =
     perform_garbage_collection K (LOG INFO ''Forcing garbage collection...'' s) \<and>
   error_of (handle_sigusr2 K signal_number s) = error_of (perform_garbage_collection K s) \<and>
   effects (added s (final (handle_sigusr2 K signal_number s))) =
     effects (added s (final (perform_garbage_collection K s))) \<and>
   self (final (handle_sigusr2 K signal_number s))\<lparr>running := True\<rparr> =
     (self s)\<lparr>running := True\<rparr>"
proof (intro conjI)
  let ?s0 = "LOG INFO ''Forcing garbage collection...'' s"
  show "handle_sigusr2 K signal_number s = perform_garbage_collection K ?s0"
    by (simp add: handle_sigusr2_def)
  show "error_of (handle_sigusr2 K signal_number s) = error_of (perform_garbage_collection K s)"
    unfolding handle_sigusr2_def by (rule pass_same) simp_all
  have "effects (added ?s0 (final (perform_garbage_collection K ?s0))) =
      effects (added s (final (perform_garbage_collection K s)))"
    by (rule pass_same) simp_all
  then show "effects (added s (final (handle_sigusr2 K signal_number s))) =
      effects (added s (final (perform_garbage_collection K s)))"
    by (simp add: handler_added)
  have "continues ?s0 (final (perform_garbage_collection K ?s0))"
    by (rule pass_facts)
  then show "self (final (handle_sigusr2 K signal_number s))\<lparr>running := True\<rparr> =
     (self s)\<lparr>running := True\<rparr>"
    by (simp add: handle_sigusr2_def continues_def)
qed

theorem signal_handler_runs_pass_witness:
  "error_of (handle_sigusr2 example_constants 12 example_state) = None \<and>
   effects (added example_state (final (handle_sigusr2 example_constants 12 example_state))) =
     effects (added example_state
       (final (perform_garbage_collection example_constants example_state)))"
proof -
  have "error_of (perform_garbage_collection example_constants example_state) = None"
    by (simp add: pass_facts jobs_def example_simps cutoff_def datetime_sub_def day_def
        datetime_max_def)
  with signal_handler_runs_pass [of example_constants 12 example_state, THEN conjunct2]
  show ?thesis
    by simp
qed

text \<open>
  C4, as stated, fails: run on the small installation, the handler itself calls the purge
  collaborators.
\<close>

theorem signal_handler_purges_counterexample:
  "events (final (handle_sigusr2 example_constants 12 example_state)) =
     [Log INFO ''Forcing garbage collection...'',
      Log INFO ''Performing garbage collection...'',
      Log INFO ''Performing garbage collection for action executions and related objects'',
      Log INFO ''Deleting action executions older than: %s'',
      Call (Purge_executions (clock example_state 0 - 30 * day)),
      Sleep 2,
      Log DEBUG
        ''Skipping garbage collection for action executions output since it's not configured'',
      Log DEBUG
        ''Skipping garbage collection for trigger instances since it's not configured'',
      Log INFO ''Performing garbage collection for Inquiries'',
      Call Purge_inquiries,
      Sleep 2]"
  by (simp add: handle_sigusr2_def run_defs final_def example_constants_def example_state_def
      example_service_def)

text \<open>
  C2. For a result that is not empty: with partial failure allowed the status is
  SUCCEEDED exactly when some target succeeded and FAILED exactly when every target
  failed; without, it is SUCCEEDED exactly when every target succeeded and FAILED exactly
  when some target failed. It is always one of the two, and it depends on the set of
  entries only, not on their order.
\<close>

theorem get_result_status_verdict:
  assumes "result \<noteq> []"
  shows "(get_result_status result True = SUCCEEDED \<longleftrightarrow> (\<exists>t\<in>set result. snd t)) \<and>
         (get_result_status result True = FAILED \<longleftrightarrow> (\<forall>t\<in>set result. \<not> snd t)) \<and>
         (get_result_status result False = SUCCEEDED \<longleftrightarrow> (\<forall>t\<in>set result. snd t)) \<and>
         (get_result_status result False = FAILED \<longleftrightarrow> (\<exists>t\<in>set result. \<not> snd t)) \<and>
         (get_result_status result allow_partial_failure = SUCCEEDED \<or>
          get_result_status result allow_partial_failure = FAILED) \<and>
         (\<forall>result'. set result' = set result \<longrightarrow>
            get_result_status result' allow_partial_failure =
            get_result_status result allow_partial_failure)"
  by (auto simp: get_result_status_def list_ex_snd list_all_snd)

theorem get_result_status_verdict_witness:
  "[(''1'', False), (''2'', True), (''3'', False)] \<noteq> [] \<and>
   get_result_status [(''1'', False), (''2'', True), (''3'', False)] True = SUCCEEDED \<and>
   get_result_status [(''1'', False), (''2'', True), (''3'', False)] False = FAILED \<and>
   get_result_status [(''3'', False), (''1'', False), (''2'', True)] True =
     get_result_status [(''1'', False), (''2'', True), (''3'', False)] True"
proof -
  let ?r = "[(''1'', False), (''2'', True), (''3'', False)]"
  let ?r' = "[(''3'', False), (''1'', False), (''2'', True)]"
  have ne: "?r \<noteq> []" by simp
  note t = get_result_status_verdict [OF ne, of True]
  have some: "\<exists>t\<in>set ?r. snd t" by simp
  have some_not: "\<exists>t\<in>set ?r. \<not> snd t" by simp
  have same: "set ?r' = set ?r" by (simp add: insert_commute)
  have a: "get_result_status ?r True = SUCCEEDED"
    by (rule iffD2 [OF t [THEN conjunct1] some])
  have b: "get_result_status ?r False = FAILED"
    by (rule iffD2 [OF t [THEN conjunct2, THEN conjunct2, THEN conjunct2, THEN conjunct1]
          some_not])
  have c: "get_result_status ?r' True = get_result_status ?r True"
    by (rule t [THEN conjunct2, THEN conjunct2, THEN conjunct2, THEN conjunct2, THEN conjunct2,
          rule_format, OF same])
  show ?thesis
    by (intro conjI ne a b c)
qed




end
